theory Spec2Isabelle
  imports Main "HOL-Library.Sublist"
begin

section \<open>JavaScript numbers\<close>

text \<open>
  The numbers the cache computes with are time stamps (\<open>Date.now()\<close>, an integral number of
  milliseconds), stale times, and the sentinel \<open>Number.NEGATIVE_INFINITY\<close>. A finite number is
  modelled as an integer (IEEE doubles are exact on integers below \<open>2^53\<close>); the three
  non-finite doubles are constructors of their own, with the IEEE rules for \<open>-\<close>, \<open>+\<close> and
  \<open>>\<close>.
\<close>

datatype jsnum = Fin int | NaN | PosInf | NegInf

fun js_minus :: "jsnum \<Rightarrow> jsnum \<Rightarrow> jsnum" where
  "js_minus NaN y = NaN"
| "js_minus x NaN = NaN"
| "js_minus (Fin a) (Fin b) = Fin (a - b)"
| "js_minus (Fin a) PosInf = NegInf"
| "js_minus (Fin a) NegInf = PosInf"
| "js_minus PosInf PosInf = NaN"
| "js_minus PosInf y = PosInf"
| "js_minus NegInf NegInf = NaN"
| "js_minus NegInf y = NegInf"


fun js_greater :: "jsnum \<Rightarrow> jsnum \<Rightarrow> bool" where
  "js_greater NaN y = False"
| "js_greater x NaN = False"
| "js_greater (Fin a) (Fin b) = (a > b)"
| "js_greater (Fin a) PosInf = False"
| "js_greater (Fin a) NegInf = True"
| "js_greater PosInf PosInf = False"
| "js_greater PosInf y = True"
| "js_greater NegInf y = False"

section \<open>Query keys and their JSON text\<close>

text \<open>
  A query key is an array of arbitrary values (\<open>unknown[]\<close>). The values modelled are the ones
  \<open>JSON.stringify\<close> accepts without throwing and without calling user code: \<open>undefined\<close>,
  \<open>null\<close>, booleans, numbers, strings, functions, arrays and plain objects (the list of
  own enumerable properties, in enumeration order). A string is a list of code units below 256.
\<close>

datatype jsval =
    JUndefined
  | JNull
  | JBool bool
  | JNumber jsnum
  | JString string
  | JFunction
  | JArray "jsval list"
  | JObject "(string \<times> jsval) list"

definition hex_digit :: "nat \<Rightarrow> char" where
  "hex_digit n = ''0123456789abcdef'' ! (n mod 16)"

text \<open>\<open>QuoteJSONString\<close> of ECMA-262, one code unit at a time.\<close>

definition quote_char :: "char \<Rightarrow> string" where
  "quote_char c =
     (if c = CHR 0x08 then [CHR 0x5C, CHR ''b'']
      else if c = CHR 0x09 then [CHR 0x5C, CHR ''t'']
      else if c = CHR 0x0A then [CHR 0x5C, CHR ''n'']
      else if c = CHR 0x0C then [CHR 0x5C, CHR ''f'']
      else if c = CHR 0x0D then [CHR 0x5C, CHR ''r'']
      else if c = CHR 0x22 then [CHR 0x5C, CHR 0x22]
      else if c = CHR 0x5C then [CHR 0x5C, CHR 0x5C]
      else if (of_char c :: nat) < 32 then
        [CHR 0x5C, CHR ''u'', CHR ''0'', CHR ''0'',
         hex_digit ((of_char c :: nat) div 16), hex_digit ((of_char c :: nat) mod 16)]
      else [c])"

definition QuoteJSONString :: "string \<Rightarrow> string" where
  "QuoteJSONString s = CHR 0x22 # concat (map quote_char s) @ [CHR 0x22]"

definition digit_char :: "nat \<Rightarrow> char" where
  "digit_char n = ''0123456789'' ! (n mod 10)"

fun digits :: "nat \<Rightarrow> string" where
  "digits n = (if n < 10 then [digit_char n] else digits (n div 10) @ [digit_char (n mod 10)])"

declare digits.simps [simp del]

text \<open>
  \<open>Number::toString\<close> on an integer of magnitude below \<open>10^21\<close>: the decimal digits, with
  a minus sign for a negative one. JavaScript writes a larger integer with an exponent
  (\<open>1e+21\<close>); such numbers are outside the model, which writes their digits all the same.
\<close>

definition Number_toString :: "int \<Rightarrow> string" where
  "Number_toString i = (if i < 0 then CHR ''-'' # digits (nat (- i)) else digits (nat i))"

fun join :: "string list \<Rightarrow> string" where
  "join [] = []"
| "join [x] = x"
| "join (x # y # zs) = x @ CHR '','' # join (y # zs)"

text \<open>
  \<open>SerializeJSONProperty\<close> of ECMA-262: \<open>None\<close> is its result \<open>undefined\<close> (for
  \<open>undefined\<close> and functions). An array element without a text is written \<open>null\<close>; an object
  member without a text is left out. Non-finite numbers are written \<open>null\<close>.
\<close>

fun SerializeJSONProperty :: "jsval \<Rightarrow> string option"
  and SerializeJSONArray :: "jsval list \<Rightarrow> string list"
  and SerializeJSONObject :: "(string \<times> jsval) list \<Rightarrow> string list"
where
  "SerializeJSONProperty JUndefined = None"
| "SerializeJSONProperty JNull = Some ''null''"
| "SerializeJSONProperty (JBool b) = Some (if b then ''true'' else ''false'')"
| "SerializeJSONProperty (JNumber n) =
     Some (case n of Fin i \<Rightarrow> Number_toString i | _ \<Rightarrow> ''null'')"
| "SerializeJSONProperty (JString s) = Some (QuoteJSONString s)"
| "SerializeJSONProperty JFunction = None"
| "SerializeJSONProperty (JArray vs) = Some (CHR ''['' # join (SerializeJSONArray vs) @ '']'')"
| "SerializeJSONProperty (JObject ms) = Some (CHR ''{'' # join (SerializeJSONObject ms) @ ''}'')"
| "SerializeJSONArray [] = []"
| "SerializeJSONArray (v # vs) =
     (case SerializeJSONProperty v of None \<Rightarrow> ''null'' | Some s \<Rightarrow> s) # SerializeJSONArray vs"
| "SerializeJSONObject [] = []"
| "SerializeJSONObject ((k, v) # ms) =
     (case SerializeJSONProperty v of
        None \<Rightarrow> SerializeJSONObject ms
      | Some s \<Rightarrow> (QuoteJSONString k @ CHR '':'' # s) # SerializeJSONObject ms)"

text \<open>\<open>JSON.stringify(queryKey)\<close> for a key, which is an array and so always has a text.\<close>

definition JSON_stringify :: "jsval list \<Rightarrow> string" where
  "JSON_stringify queryKey = CHR ''['' # join (SerializeJSONArray queryKey) @ '']''"

subsection \<open>Reading the text back\<close>

text \<open>
  \<open>JSON.parse\<close> is only ever applied to the private field that holds the text written by
  \<open>JSON.stringify\<close>. The parser reads compact JSON text with integer numbers and code units
  below 256; on any other text (a syntax error, or JSON outside this fragment) it returns
  \<open>None\<close>. Object members are kept in the order of the text.
\<close>

definition is_digit :: "char \<Rightarrow> bool" where
  "is_digit c = (48 \<le> (of_char c :: nat) \<and> (of_char c :: nat) \<le> 57)"

definition digit_val :: "char \<Rightarrow> nat" where
  "digit_val c = (of_char c :: nat) - 48"

definition hex_val :: "char \<Rightarrow> nat option" where
  "hex_val c =
     (let n = (of_char c :: nat) in
      if 48 \<le> n \<and> n \<le> 57 then Some (n - 48)
      else if 97 \<le> n \<and> n \<le> 102 then Some (n - 87)
      else if 65 \<le> n \<and> n \<le> 70 then Some (n - 55)
      else None)"

definition unescape :: "char \<Rightarrow> char option" where
  "unescape e =
     (if e = CHR ''b'' then Some (CHR 0x08)
      else if e = CHR ''t'' then Some (CHR 0x09)
      else if e = CHR ''n'' then Some (CHR 0x0A)
      else if e = CHR ''f'' then Some (CHR 0x0C)
      else if e = CHR ''r'' then Some (CHR 0x0D)
      else if e = CHR 0x22 then Some (CHR 0x22)
      else if e = CHR 0x5C then Some (CHR 0x5C)
      else if e = CHR ''/'' then Some (CHR ''/'')
      else None)"

definition consc :: "char \<Rightarrow> (string \<times> string) option \<Rightarrow> (string \<times> string) option" where
  "consc c r = (case r of None \<Rightarrow> None | Some (s, rest) \<Rightarrow> Some (c # s, rest))"

text \<open>The characters of a string literal after its opening quote, up to the closing one.\<close>

fun parse_chars :: "string \<Rightarrow> (string \<times> string) option" where
  "parse_chars [] = None"
| "parse_chars (c # cs) =
     (if c = CHR 0x22 then Some ([], cs)
      else if c = CHR 0x5C then
        (case cs of
           [] \<Rightarrow> None
         | e # r \<Rightarrow>
             if e = CHR ''u'' then
               (case r of
                  h1 # h2 # h3 # h4 # r' \<Rightarrow>
                    (case (hex_val h1, hex_val h2, hex_val h3, hex_val h4) of
                       (Some a, Some b, Some c', Some d) \<Rightarrow>
                         if a = 0 \<and> b = 0 then consc (char_of (16 * c' + d)) (parse_chars r')
                         else None
                     | _ \<Rightarrow> None)
                | _ \<Rightarrow> None)
             else
               (case unescape e of
                  None \<Rightarrow> None
                | Some u \<Rightarrow> consc u (parse_chars r)))
      else if (of_char c :: nat) < 32 then None
      else consc c (parse_chars cs))"

definition parse_unsigned :: "string \<Rightarrow> (nat \<times> string) option" where
  "parse_unsigned s =
     (let ds = takeWhile is_digit s; rest = dropWhile is_digit s in
      if ds = [] then None
      else if 1 < length ds \<and> hd ds = CHR ''0'' then None
      else if rest \<noteq> [] \<and> hd rest \<in> {CHR ''.'', CHR ''e'', CHR ''E''} then None
      else Some (foldl (\<lambda>n c. 10 * n + digit_val c) 0 ds, rest))"

definition parse_number :: "string \<Rightarrow> (jsval \<times> string) option" where
  "parse_number s =
     (case s of
        [] \<Rightarrow> None
      | c # cs \<Rightarrow>
          if c = CHR ''-'' then
            (case parse_unsigned cs of
               None \<Rightarrow> None
             | Some (n, rest) \<Rightarrow> Some (JNumber (Fin (- int n)), rest))
          else
            (case parse_unsigned s of
               None \<Rightarrow> None
             | Some (n, rest) \<Rightarrow> Some (JNumber (Fin (int n)), rest)))"

text \<open>
  The recursive descent, with fuel: every call spends one unit, and \<open>JSON_parse\<close> starts with
  as many units as the text has characters, which is enough for any text the parser accepts
  that \<open>JSON.stringify\<close> wrote.
\<close>

fun parse_value :: "nat \<Rightarrow> string \<Rightarrow> (jsval \<times> string) option"
  and parse_elements :: "nat \<Rightarrow> string \<Rightarrow> (jsval list \<times> string) option"
  and parse_members :: "nat \<Rightarrow> string \<Rightarrow> ((string \<times> jsval) list \<times> string) option"
where
  "parse_value 0 s = None"
| "parse_value (Suc n) s =
     (case s of
        [] \<Rightarrow> None
      | c # cs \<Rightarrow>
          if c = CHR ''['' then
            (case cs of
               [] \<Rightarrow> None
             | d # r \<Rightarrow>
                 if d = CHR '']'' then Some (JArray [], r)
                 else (case parse_elements n cs of
                         None \<Rightarrow> None
                       | Some (vs, rest) \<Rightarrow> Some (JArray vs, rest)))
          else if c = CHR ''{'' then
            (case cs of
               [] \<Rightarrow> None
             | d # r \<Rightarrow>
                 if d = CHR ''}'' then Some (JObject [], r)
                 else (case parse_members n cs of
                         None \<Rightarrow> None
                       | Some (ms, rest) \<Rightarrow> Some (JObject ms, rest)))
          else if c = CHR 0x22 then
            (case parse_chars cs of
               None \<Rightarrow> None
             | Some (str, rest) \<Rightarrow> Some (JString str, rest))
          else if prefix ''null'' s then Some (JNull, drop 4 s)
          else if prefix ''true'' s then Some (JBool True, drop 4 s)
          else if prefix ''false'' s then Some (JBool False, drop 5 s)
          else parse_number s)"
| "parse_elements 0 s = None"
| "parse_elements (Suc n) s =
     (case parse_value n s of
        None \<Rightarrow> None
      | Some (v, r) \<Rightarrow>
          (case r of
             [] \<Rightarrow> None
           | d # r' \<Rightarrow>
               if d = CHR '']'' then Some ([v], r')
               else if d = CHR '','' then
                 (case parse_elements n r' of
                    None \<Rightarrow> None
                  | Some (vs, rest) \<Rightarrow> Some (v # vs, rest))
               else None))"
| "parse_members 0 s = None"
| "parse_members (Suc n) s =
     (case s of
        [] \<Rightarrow> None
      | q # cs \<Rightarrow>
          if q \<noteq> CHR 0x22 then None
          else
            (case parse_chars cs of
               None \<Rightarrow> None
             | Some (k, r0) \<Rightarrow>
                 (case r0 of
                    [] \<Rightarrow> None
                  | colon # r1 \<Rightarrow>
                      if colon \<noteq> CHR '':'' then None
                      else
                        (case parse_value n r1 of
                           None \<Rightarrow> None
                         | Some (v, r) \<Rightarrow>
                             (case r of
                                [] \<Rightarrow> None
                              | d # r' \<Rightarrow>
                                  if d = CHR ''}'' then Some ([(k, v)], r')
                                  else if d = CHR '','' then
                                    (case parse_members n r' of
                                       None \<Rightarrow> None
                                     | Some (ms, rest) \<Rightarrow> Some ((k, v) # ms, rest))
                                  else None)))))"

definition JSON_parse :: "string \<Rightarrow> jsval option" where
  "JSON_parse s =
     (case parse_value (length s) s of
        None \<Rightarrow> None
      | Some (v, rest) \<Rightarrow> if rest = [] then Some v else None)"

section \<open>Promises and the process state\<close>

text \<open>
  A promise is an object: the cache stores and returns references to it. The promise objects
  live in a heap (a reference is an index into it), so that two promises are the same exactly
  when their references are equal.

  The state of the process outside any one client is the static field
  \<open>QueryClient.staleTime\<close>, the heap of promises, and, as instrumentation, the list of the
  contexts with which a \<open>queryFn\<close> has been called so far (what a spy on \<open>queryFn\<close>
  records).
\<close>

datatype ('a, 'e) settlement = Pending | Fulfilled 'a | Rejected 'e

type_synonym pref = nat

type_synonym ('a, 'e) heap = "('a, 'e) settlement list"

record QueryContext =
  signal :: "nat option"
  ctx_queryKey :: jsval

record ('a, 'e) process =
  QueryClient_staleTime :: jsnum
  promises :: "('a, 'e) heap"
  invoked :: "QueryContext list"

text \<open>The static initialiser \<open>static staleTime: number = 1000 * 60 * 5\<close>.\<close>

definition initial_process :: "('a, 'e) process" where
  "initial_process = \<lparr>QueryClient_staleTime = Fin (1000 * 60 * 5), promises = [], invoked = []\<rparr>"

text \<open>
  The argument of \<open>Promise.resolve\<close>: a value that is not a thenable, a promise (given by its
  reference), or another thenable. \<open>Promise.resolve\<close> returns a promise argument itself; for a
  thenable it creates a promise that is pending when it is returned (it follows the thenable
  later); for any other value it creates a promise already fulfilled with the value.
\<close>

datatype 'a resolvable = Plain 'a | APromise pref | Thenable

fun Promise_resolve :: "'a resolvable \<Rightarrow> ('a, 'e) heap \<Rightarrow> pref \<times> ('a, 'e) heap" where
  "Promise_resolve (Plain v) h = (length h, h @ [Fulfilled v])"
| "Promise_resolve (APromise p) h = (p, h)"
| "Promise_resolve Thenable h = (length h, h @ [Pending])"

section \<open>Query\<close>

text \<open>
  A \<open>queryFn\<close> is caller code: given the context it returns a promise, which it may have
  allocated, so it maps the heap to a reference and a heap. It returns (a failure is a
  rejected promise, not an exception), and it does not call back into the client.
\<close>

type_synonym ('a, 'e) queryFn = "QueryContext \<Rightarrow> ('a, 'e) heap \<Rightarrow> pref \<times> ('a, 'e) heap"

record ('a, 'e) QueryOptions =
  staleTime :: "jsnum option"
  queryKey :: "jsval list"
  queryFn :: "('a, 'e) queryFn"

text \<open>The private fields \<open>#staleTime\<close>, \<open>#queryKey\<close> and \<open>#queryFn\<close>.\<close>

record ('a, 'e) Query =
  p_staleTime :: jsnum
  p_queryKey :: string
  p_queryFn :: "('a, 'e) queryFn"

datatype error = SyntaxError

text \<open>The constructor: the default value of \<open>staleTime\<close> is read from the static field.\<close>

definition Query_new :: "('a, 'e) QueryOptions \<Rightarrow> ('a, 'e) process \<Rightarrow> ('a, 'e) Query" where
  "Query_new options ps =
     \<lparr>p_staleTime = (case staleTime options of None \<Rightarrow> QueryClient_staleTime ps | Some t \<Rightarrow> t),
      p_queryKey = JSON_stringify (queryKey options),
      p_queryFn = queryFn options\<rparr>"

definition key :: "('a, 'e) Query \<Rightarrow> string" where
  "key q = p_queryKey q"

definition Query_queryKey :: "('a, 'e) Query \<Rightarrow> jsval option" where
  "Query_queryKey q = JSON_parse (p_queryKey q)"

text \<open>\<open>isStale(lastUpdated)\<close>; \<open>now\<close> is what \<open>Date.now()\<close> returns at the call.\<close>

definition isStale :: "('a, 'e) Query \<Rightarrow> int \<Rightarrow> jsnum \<Rightarrow> bool" where
  "isStale q now lastUpdated = js_greater (js_minus (Fin now) lastUpdated) (p_staleTime q)"

text \<open>
  \<open>fetch(signal)\<close> calls \<open>queryFn\<close> with the signal and the key read back from the text; if
  \<open>JSON.parse\<close> throws, \<open>queryFn\<close> is not called.
\<close>

definition Query_fetch ::
  "('a, 'e) Query \<Rightarrow> nat option \<Rightarrow> ('a, 'e) process \<Rightarrow> error + pref \<times> ('a, 'e) process" where
  "Query_fetch q sig ps =
     (case Query_queryKey q of
        None \<Rightarrow> Inl SyntaxError
      | Some k \<Rightarrow>
          (let ctx = \<lparr>signal = sig, ctx_queryKey = k\<rparr>;
               (p, h) = p_queryFn q ctx (promises ps)
           in Inr (p, ps\<lparr>promises := h, invoked := invoked ps @ [ctx]\<rparr>)))"

section \<open>CacheEntry\<close>

record CacheEntry =
  promise :: pref
  createdAt :: jsnum

definition CacheEntry_new :: "pref \<Rightarrow> int \<Rightarrow> CacheEntry" where
  "CacheEntry_new p now = \<lparr>promise = p, createdAt = Fin now\<rparr>"

definition invalidate :: "CacheEntry \<Rightarrow> CacheEntry" where
  "invalidate e = e\<lparr>createdAt := NegInf\<rparr>"

section \<open>QueryClient\<close>

record QueryClient =
  queries :: "string \<rightharpoonup> CacheEntry"

text \<open>The constructor writes the static field, whatever client is being constructed.\<close>

definition QueryClient_new ::
  "jsnum option \<Rightarrow> ('a, 'e) process \<Rightarrow> QueryClient \<times> ('a, 'e) process" where
  "QueryClient_new defaultStaleTime ps =
     (\<lparr>queries = Map.empty\<rparr>,
      ps\<lparr>QueryClient_staleTime :=
           (case defaultStaleTime of None \<Rightarrow> Fin (1000 * 60 * 5) | Some d \<Rightarrow> d)\<rparr>)"

text \<open>
  Svelte's \<open>hydratable(key, fn)\<close> is not part of the library. It is modelled by the store of
  values replayed from the server: a value stored under the key is returned, otherwise
  \<open>fn\<close> is called.
\<close>

definition hydratable ::
  "(string \<rightharpoonup> pref) \<Rightarrow> string \<Rightarrow> (('a, 'e) process \<Rightarrow> error + pref \<times> ('a, 'e) process)
     \<Rightarrow> ('a, 'e) process \<Rightarrow> error + pref \<times> ('a, 'e) process" where
  "hydratable store k fn ps = (case store k of Some p \<Rightarrow> Inr (p, ps) | None \<Rightarrow> fn ps)"

text \<open>
  Storing a newly created entry: \<open>if (this.#queries.get(query.key) !== entry)
  this.#queries.set(query.key, entry)\<close>. A new entry is a new object, so it is never the stored
  one and the \<open>set\<close> happens; an entry taken from the map is the stored one and nothing is
  written.
\<close>

definition store_new ::
  "string \<Rightarrow> int \<Rightarrow> QueryClient \<Rightarrow> error + pref \<times> ('a, 'e) process
     \<Rightarrow> error + pref \<times> QueryClient \<times> ('a, 'e) process" where
  "store_new k now c r =
     (case r of
        Inl e \<Rightarrow> Inl e
      | Inr (p, ps') \<Rightarrow>
          (let entry = CacheEntry_new p now
           in Inr (promise entry, c\<lparr>queries := (queries c)(k \<mapsto> entry)\<rparr>, ps')))"

text \<open>
  \<open>fetchQuery(options)\<close>. The clock is read twice: \<open>now\<close> is the reading inside
  \<open>isStale\<close>, \<open>now'\<close> the later one in the constructor of the new entry.
\<close>

definition fetchQuery ::
  "('a, 'e) QueryOptions \<Rightarrow> int \<Rightarrow> int \<Rightarrow> (string \<rightharpoonup> pref) \<Rightarrow> QueryClient \<Rightarrow> ('a, 'e) process
     \<Rightarrow> error + pref \<times> QueryClient \<times> ('a, 'e) process" where
  "fetchQuery options now now' store c ps =
     (let query = Query_new options ps in
      case queries c (key query) of
        Some cached \<Rightarrow>
          if isStale query now (createdAt cached)
          then store_new (key query) now' c (Query_fetch query None ps)
          else Inr (promise cached, c, ps)
      | None \<Rightarrow>
          store_new (key query) now' c (hydratable store (key query) (Query_fetch query None) ps))"

text \<open>\<open>ensureQuery(options)\<close>; \<open>now\<close> is the clock in the constructor of a new entry.\<close>

definition ensureQuery ::
  "('a, 'e) QueryOptions \<Rightarrow> int \<Rightarrow> (string \<rightharpoonup> pref) \<Rightarrow> QueryClient \<Rightarrow> ('a, 'e) process
     \<Rightarrow> error + pref \<times> QueryClient \<times> ('a, 'e) process" where
  "ensureQuery options now store c ps =
     (let query = Query_new options ps in
      case queries c (key query) of
        Some cached \<Rightarrow> Inr (promise cached, c, ps)
      | None \<Rightarrow>
          store_new (key query) now c (hydratable store (key query) (Query_fetch query None) ps))"

definition setQuery ::
  "jsval list \<Rightarrow> 'a resolvable \<Rightarrow> int \<Rightarrow> QueryClient \<Rightarrow> ('a, 'e) process
     \<Rightarrow> QueryClient \<times> ('a, 'e) process" where
  "setQuery k v now c ps =
     (let (p, h) = Promise_resolve v (promises ps)
      in (c\<lparr>queries := (queries c)(JSON_stringify k \<mapsto> CacheEntry_new p now)\<rparr>,
          ps\<lparr>promises := h\<rparr>))"

definition removeQuery :: "('a, 'e) Query \<Rightarrow> QueryClient \<Rightarrow> QueryClient" where
  "removeQuery q c = c\<lparr>queries := (queries c)(key q := None)\<rparr>"

definition clear :: "QueryClient \<Rightarrow> QueryClient" where
  "clear c = c\<lparr>queries := Map.empty\<rparr>"

definition getQuery :: "jsval list \<Rightarrow> QueryClient \<Rightarrow> pref option" where
  "getQuery k c = map_option promise (queries c (JSON_stringify k))"

definition invalidateQuery :: "jsval list \<Rightarrow> QueryClient \<Rightarrow> QueryClient" where
  "invalidateQuery k c =
     (case queries c (JSON_stringify k) of
        None \<Rightarrow> c
      | Some e \<Rightarrow> c\<lparr>queries := (queries c)(JSON_stringify k \<mapsto> invalidate e)\<rparr>)"

text \<open>\<open>s.slice(0, -1)\<close> and \<open>s.startsWith(t)\<close> on strings.\<close>

definition slice_0_m1 :: "string \<Rightarrow> string" where
  "slice_0_m1 s = butlast s"

definition startsWith :: "string \<Rightarrow> string \<Rightarrow> bool" where
  "startsWith s t = prefix t s"

text \<open>
  \<open>invalidateQueries(queryKey = [])\<close>. The \<open>forEach\<close> visits every key of the map, and its body
  writes only to the entry stored under the key it visits, so the loop is the pointwise update
  of the map.
\<close>

definition invalidateQueries :: "jsval list option \<Rightarrow> QueryClient \<Rightarrow> QueryClient" where
  "invalidateQueries arg c =
     (let queryKey = (case arg of None \<Rightarrow> [] | Some k \<Rightarrow> k);
          stringKey = slice_0_m1 (JSON_stringify queryKey)
      in c\<lparr>queries :=
            (\<lambda>k. if startsWith k stringKey then map_option invalidate (queries c k)
                  else queries c k)\<rparr>)"

section \<open>Notions used in the statements and proofs\<close>

text \<open>
  What reading back the text of a value yields: inside an array \<open>undefined\<close>, a function
  and a non-finite number come back as \<open>null\<close>; inside an object a member whose value is
  \<open>undefined\<close> or a function is gone.
\<close>

fun reparsed :: "jsval \<Rightarrow> jsval"
  and reparsed_array :: "jsval list \<Rightarrow> jsval list"
  and reparsed_object :: "(string \<times> jsval) list \<Rightarrow> (string \<times> jsval) list"
where
  "reparsed JUndefined = JNull"
| "reparsed JNull = JNull"
| "reparsed (JBool b) = JBool b"
| "reparsed (JNumber n) = (case n of Fin i \<Rightarrow> JNumber (Fin i) | _ \<Rightarrow> JNull)"
| "reparsed (JString s) = JString s"
| "reparsed JFunction = JNull"
| "reparsed (JArray vs) = JArray (reparsed_array vs)"
| "reparsed (JObject ms) = JObject (reparsed_object ms)"
| "reparsed_array [] = []"
| "reparsed_array (v # vs) = reparsed v # reparsed_array vs"
| "reparsed_object [] = []"
| "reparsed_object ((k, v) # ms) =
     (if v = JUndefined \<or> v = JFunction then reparsed_object ms
      else (k, reparsed v) # reparsed_object ms)"

text \<open>The text of a value as an array element.\<close>

definition elem_text :: "jsval \<Rightarrow> string" where
  "elem_text v = (case SerializeJSONProperty v of None \<Rightarrow> ''null'' | Some s \<Rightarrow> s)"

text \<open>What may follow the text of a value: nothing, a comma or a closing bracket.\<close>

definition delim :: "string \<Rightarrow> bool" where
  "delim rest =
     (case rest of [] \<Rightarrow> True | c # _ \<Rightarrow> c = CHR '','' \<or> c = CHR '']'' \<or> c = CHR ''}'')"

definition no_more :: "string \<Rightarrow> bool" where
  "no_more rest =
     (case rest of
        [] \<Rightarrow> True
      | c # _ \<Rightarrow> \<not> is_digit c \<and> c \<notin> {CHR ''.'', CHR ''e'', CHR ''E''})"

text \<open>
  The text of a finite number ends where the digits end, so what follows it matters; the text
  of any other value carries its own end.
\<close>

definition finite_number :: "jsval \<Rightarrow> bool" where
  "finite_number v = (case v of JNumber (Fin i) \<Rightarrow> True | _ \<Rightarrow> False)"

definition atom :: "jsval \<Rightarrow> bool" where
  "atom v = (case v of JArray _ \<Rightarrow> False | JObject _ \<Rightarrow> False | _ \<Rightarrow> True)"

text \<open>The fragments that JSON has no text for.\<close>

definition not_in_JSON :: "jsval \<Rightarrow> bool" where
  "not_in_JSON v =
     (v = JUndefined \<or> v = JFunction \<or> v = JNumber NaN \<or> v = JNumber PosInf \<or> v = JNumber NegInf)"

text \<open>
  A caller making several \<open>fetchQuery\<close> calls one after the other, each with its own options,
  clock readings and hydration store; the result lists the promises returned.
\<close>

fun fetchQuery_calls ::
  "(('a, 'e) QueryOptions \<times> int \<times> int \<times> (string \<rightharpoonup> pref)) list \<Rightarrow> QueryClient
     \<Rightarrow> ('a, 'e) process \<Rightarrow> error + pref list \<times> QueryClient \<times> ('a, 'e) process" where
  "fetchQuery_calls [] c ps = Inr ([], c, ps)"
| "fetchQuery_calls ((options, now, now', store) # calls) c ps =
     (case fetchQuery options now now' store c ps of
        Inl e \<Rightarrow> Inl e
      | Inr (p, c', ps') \<Rightarrow>
          (case fetchQuery_calls calls c' ps' of
             Inl e \<Rightarrow> Inl e
           | Inr (rs, c'', ps'') \<Rightarrow> Inr (p # rs, c'', ps'')))"

text \<open>
  Concrete inputs for the examples: \<open>() => Promise.resolve(2)\<close> and
  \<open>() => Promise.reject(7)\<close> as \<open>queryFn\<close>, options for the key \<open>['a']\<close>, and the client and
  process after \<open>setQuery(['a'], 1)\<close> at time 100 on a new client.
\<close>

definition resolving :: "(nat, nat) queryFn" where
  "resolving ctx h = (length h, h @ [Fulfilled 2])"

definition rejecting :: "(nat, nat) queryFn" where
  "rejecting ctx h = (length h, h @ [Rejected 7])"

definition options_a :: "jsnum option \<Rightarrow> (nat, nat) queryFn \<Rightarrow> (nat, nat) QueryOptions" where
  "options_a st fn = \<lparr>staleTime = st, queryKey = [JString ''a''], queryFn = fn\<rparr>"

definition empty_client :: QueryClient where
  "empty_client = \<lparr>queries = Map.empty\<rparr>"

definition seeded_client :: QueryClient where
  "seeded_client =
     fst (setQuery [JString ''a''] (Plain (1::nat)) 100 empty_client
            (initial_process :: (nat, nat) process))"

definition seeded_process :: "(nat, nat) process" where
  "seeded_process = snd (setQuery [JString ''a''] (Plain 1) 100 empty_client initial_process)"

text \<open>
  A process in which two promises exist: one still pending (\<open>new Promise(() => {})\<close>) and one
  rejected (\<open>Promise.reject(7)\<close>).
\<close>

definition unsettled_process :: "(nat, nat) process" where
  "unsettled_process =
     \<lparr>QueryClient_staleTime = Fin (1000 * 60 * 5), promises = [Pending, Rejected 7], invoked = []\<rparr>"

section \<open>Reading back the text of a key\<close>

lemma hex_val_hex_digit: "m < 16 \<Longrightarrow> hex_val (hex_digit m) = Some m"
proof -
  assume "m < 16"
  then have "m = 0 \<or> m = 1 \<or> m = 2 \<or> m = 3 \<or> m = 4 \<or> m = 5 \<or> m = 6 \<or> m = 7 \<or> m = 8
      \<or> m = 9 \<or> m = 10 \<or> m = 11 \<or> m = 12 \<or> m = 13 \<or> m = 14 \<or> m = 15" by arith
  then show ?thesis by (elim disjE) (simp_all add: hex_digit_def hex_val_def)
qed

lemma consc_Some [simp]: "consc c (Some (s, r)) = Some (c # s, r)"
  by (simp add: consc_def)

lemma parse_chars_quote_char:
  "parse_chars rest' = Some (s, rest) \<Longrightarrow> parse_chars (quote_char c @ rest') = Some (c # s, rest)"
proof (cases "(of_char c :: nat) < 32")
  case False
  assume r: "parse_chars rest' = Some (s, rest)"
  from False have ne: "c \<noteq> CHR 0x08" "c \<noteq> CHR 0x09" "c \<noteq> CHR 0x0A" "c \<noteq> CHR 0x0C" "c \<noteq> CHR 0x0D"
    by auto
  show ?thesis using False ne r by (simp add: quote_char_def unescape_def)
next
  case True
  assume r: "parse_chars rest' = Some (s, rest)"
  let ?n = "of_char c :: nat"
  have d: "?n div 16 < 16" "?n mod 16 < 16" using True by auto
  have c: "char_of (16 * (?n div 16) + ?n mod 16) = c" by simp
  have q: "c \<noteq> CHR 0x22" "c \<noteq> CHR 0x5C" using True by auto
  have z: "hex_val (CHR ''0'') = Some 0" by (simp add: hex_val_def)
  show ?thesis using True q r z c hex_val_hex_digit[OF d(1)] hex_val_hex_digit[OF d(2)]
    by (simp add: quote_char_def unescape_def)
qed

lemma parse_chars_quoted:
  "parse_chars (concat (map quote_char s) @ CHR 0x22 # rest) = Some (s, rest)"
  by (induction s) (simp_all add: parse_chars_quote_char)


lemma digit_char_props: "m < 10 \<Longrightarrow> is_digit (digit_char m) \<and> digit_val (digit_char m) = m \<and> (digit_char m = CHR ''0'' \<longleftrightarrow> m = 0)"
proof -
  assume "m < 10"
  then have "m = 0 \<or> m = 1 \<or> m = 2 \<or> m = 3 \<or> m = 4 \<or> m = 5 \<or> m = 6 \<or> m = 7 \<or> m = 8 \<or> m = 9"
    by arith
  then show ?thesis by (elim disjE) (simp_all add: digit_char_def is_digit_def digit_val_def)
qed

lemma digits_ne [simp]: "digits n \<noteq> []"
  by (subst digits.simps) simp

lemma digits_all: "c \<in> set (digits n) \<Longrightarrow> is_digit c"
proof (induction n arbitrary: c rule: digits.induct)
  case (1 n)
  show ?case
  proof (cases "n < 10")
    case True
    with "1.prems" show ?thesis by (subst (asm) digits.simps) (simp add: digit_char_props)
  next
    case False
    with "1.prems" "1.IH" show ?thesis
      by (subst (asm) digits.simps) (auto simp: digit_char_props)
  qed
qed

lemma digits_val: "foldl (\<lambda>a c. 10 * a + digit_val c) 0 (digits n) = n"
proof (induction n rule: digits.induct)
  case (1 n)
  show ?case
  proof (cases "n < 10")
    case True
    then show ?thesis by (subst digits.simps) (simp add: digit_char_props)
  next
    case False
    with "1.IH" show ?thesis
      by (subst digits.simps) (simp add: digit_char_props)
  qed
qed

lemma digits_hd: "0 < n \<Longrightarrow> hd (digits n) \<noteq> CHR ''0''"
proof (induction n rule: digits.induct)
  case (1 n)
  show ?case
  proof (cases "n < 10")
    case True
    with "1.prems" show ?thesis by (subst digits.simps) (simp add: digit_char_props)
  next
    case False
    then have "0 < n div 10" by simp
    with False "1.IH" show ?thesis
      by (subst digits.simps) simp
  qed
qed

lemma digits_zero: "1 < length (digits n) \<Longrightarrow> 0 < n"
  by (cases "n = 0") (simp_all add: digits.simps[of 0])

lemma delim_no_more: "delim rest \<Longrightarrow> no_more rest"
  by (auto simp: delim_def no_more_def is_digit_def split: list.splits)

lemma parse_unsigned_digits:
  assumes "no_more rest"
  shows "parse_unsigned (digits n @ rest) = Some (n, rest)"
proof -
  have tw: "takeWhile is_digit (digits n @ rest) = digits n"
    using assms by (cases rest) (auto simp: no_more_def digits_all takeWhile_append)
  have dw: "dropWhile is_digit (digits n @ rest) = rest"
    using assms by (cases rest) (auto simp: no_more_def digits_all dropWhile_append)
  have lead: "\<not> (1 < length (digits n) \<and> hd (digits n) = CHR ''0'')"
    using digits_zero digits_hd by blast
  have fin: "\<not> (rest \<noteq> [] \<and> hd rest \<in> {CHR ''.'', CHR ''e'', CHR ''E''})"
    using assms by (cases rest) (auto simp: no_more_def)
  show ?thesis
    unfolding parse_unsigned_def Let_def tw dw using lead fin by (simp add: digits_val)
qed

lemma digits_hd_digit: "is_digit (hd (digits n))"
  by (rule digits_all[of _ n]) simp

lemma parse_number_toString:
  assumes "no_more rest"
  shows "parse_number (Number_toString i @ rest) = Some (JNumber (Fin i), rest)"
proof (cases "i < 0")
  case True
  then show ?thesis
    by (simp add: parse_number_def Number_toString_def parse_unsigned_digits[OF assms])
next
  case False
  obtain d ds where d: "digits (nat i) = d # ds" by (cases "digits (nat i)") simp_all
  have "is_digit d" using digits_hd_digit[of "nat i"] d by simp
  then have "d \<noteq> CHR ''-''" by (auto simp: is_digit_def)
  moreover have "parse_unsigned (d # ds @ rest) = Some (nat i, rest)"
    using parse_unsigned_digits[OF assms, of "nat i"] d by simp
  ultimately show ?thesis using False d
    by (simp add: parse_number_def Number_toString_def)
qed


lemma Number_toString_first:
  "\<exists>c cs. Number_toString i = c # cs \<and> (c = CHR ''-'' \<or> is_digit c)"
proof (cases "i < 0")
  case True
  then show ?thesis by (simp add: Number_toString_def)
next
  case False
  obtain d ds where d: "digits (nat i) = d # ds" by (cases "digits (nat i)") simp_all
  have "is_digit d" using digits_hd_digit[of "nat i"] d by simp
  with False d show ?thesis by (simp add: Number_toString_def)
qed

lemma parse_value_number:
  assumes "delim rest"
  shows "parse_value (Suc n) (Number_toString i @ rest) = Some (JNumber (Fin i), rest)"
proof -
  obtain c cs where c: "Number_toString i = c # cs" "c = CHR ''-'' \<or> is_digit c"
    using Number_toString_first by blast
  have ne: "c \<noteq> CHR ''[''" "c \<noteq> CHR ''{''" "c \<noteq> CHR 0x22" "c \<noteq> CHR ''n''" "c \<noteq> CHR ''t''" "c \<noteq> CHR ''f''"
    using c(2) by (auto simp: is_digit_def)
  have "parse_value (Suc n) (c # cs @ rest) = parse_number (c # cs @ rest)"
    using ne by simp
  then show ?thesis using parse_number_toString[OF delim_no_more[OF assms], of i] c(1) by simp
qed


lemma elem_text_first:
  "\<exists>c cs. elem_text v = c # cs \<and> c \<noteq> CHR '']'' \<and> c \<noteq> CHR ''}''"
proof (cases v)
  case (JNumber n)
  show ?thesis
  proof (cases n)
    case (Fin i)
    obtain c cs where c: "Number_toString i = c # cs" "c = CHR ''-'' \<or> is_digit c"
      using Number_toString_first by blast
    then have "c \<noteq> CHR '']'' \<and> c \<noteq> CHR ''}''" by (auto simp: is_digit_def)
    with c JNumber Fin show ?thesis by (simp add: elem_text_def)
  qed (simp_all add: JNumber elem_text_def)
qed (auto simp: elem_text_def QuoteJSONString_def)

lemma elem_text_length: "1 \<le> length (elem_text v)"
  using elem_text_first[of v] by auto

lemma SerializeJSONArray_Cons [simp]: "SerializeJSONArray (v # vs) = elem_text v # SerializeJSONArray vs"
  by (simp add: elem_text_def)

declare SerializeJSONArray.simps(2) [simp del]

lemma SerializeJSONArray_Nil_iff [simp]: "SerializeJSONArray vs = [] \<longleftrightarrow> vs = []"
  by (cases vs) simp_all

lemma join_Cons: "join (x # xs) = (if xs = [] then x else x @ CHR '','' # join xs)"
  by (cases xs) simp_all

lemma SerializeJSONProperty_None: "SerializeJSONProperty v = None \<longleftrightarrow> v = JUndefined \<or> v = JFunction"
  by (cases v) simp_all


lemma parse_atom:
  shows "parse_value (Suc n) (''null'' @ rest) = Some (JNull, rest)"
    and "parse_value (Suc n) (''true'' @ rest) = Some (JBool True, rest)"
    and "parse_value (Suc n) (''false'' @ rest) = Some (JBool False, rest)"
    and "parse_value (Suc n) (QuoteJSONString s @ rest) = Some (JString s, rest)"
  by (simp_all add: QuoteJSONString_def parse_chars_quoted)

lemma parse_value_atom:
  assumes "atom v" "length (elem_text v) \<le> n" "delim rest \<or> \<not> finite_number v"
  shows "parse_value n (elem_text v @ rest) = Some (reparsed v, rest)"
proof -
  obtain m where n: "n = Suc m" using assms(2) elem_text_length[of v] by (cases n) simp_all
  show ?thesis
  proof (cases v)
    case (JBool b)
    then show ?thesis using parse_atom(2,3)[of m rest] n
      by (cases b) (simp_all add: elem_text_def)
  next
    case (JNumber x)
    show ?thesis
    proof (cases x)
      case (Fin i)
      then have "delim rest" using assms(3) JNumber by (simp add: finite_number_def)
      then show ?thesis using parse_value_number[of rest m i] n JNumber Fin
        by (simp add: elem_text_def)
    qed (use JNumber parse_atom(1)[of m rest] n in \<open>simp_all add: elem_text_def\<close>)
  next
    case (JString s)
    then show ?thesis using parse_atom(4)[of m s rest] n by (simp add: elem_text_def)
  qed (use assms(1) parse_atom(1)[of m rest] n in \<open>simp_all add: elem_text_def atom_def\<close>)
qed

lemma join_SerializeJSONArray_first:
  assumes "vs \<noteq> []"
  shows "\<exists>c cs. join (SerializeJSONArray vs) = c # cs \<and> c \<noteq> CHR '']''"
proof -
  obtain v vs' where vs: "vs = v # vs'" using assms by (cases vs) simp_all
  obtain c cs where c: "elem_text v = c # cs" "c \<noteq> CHR '']''" using elem_text_first by blast
  show ?thesis unfolding vs SerializeJSONArray_Cons join_Cons using c by simp
qed

lemma join_SerializeJSONObject_first:
  assumes "SerializeJSONObject ms \<noteq> []"
  shows "\<exists>cs. join (SerializeJSONObject ms) = CHR 0x22 # cs"
  using assms
proof (induction ms)
  case Nil
  then show ?case by simp
next
  case (Cons a ms)
  obtain k v where a: "a = (k, v)" by (cases a)
  show ?case using Cons a
    by (cases "SerializeJSONProperty v") (simp_all add: join_Cons QuoteJSONString_def)
qed

lemma delim_simps [simp]: "delim (CHR '']'' # r)" "delim (CHR '','' # r)" "delim (CHR ''}'' # r)" "delim []"
  by (simp_all add: delim_def)

lemma roundtrip_mutual:
  "(\<forall>n rest. length (elem_text v) \<le> n \<longrightarrow> delim rest \<or> \<not> finite_number v \<longrightarrow>
      parse_value n (elem_text v @ rest) = Some (reparsed v, rest))"
  "(\<forall>n rest. vs \<noteq> [] \<longrightarrow> length (join (SerializeJSONArray vs)) < n \<longrightarrow>
      parse_elements n (join (SerializeJSONArray vs) @ CHR '']'' # rest) = Some (reparsed_array vs, rest))"
  "(\<forall>n rest. SerializeJSONObject ms \<noteq> [] \<longrightarrow> length (join (SerializeJSONObject ms)) < n \<longrightarrow>
      parse_members n (join (SerializeJSONObject ms) @ CHR ''}'' # rest) = Some (reparsed_object ms, rest))"
proof (induction v and vs and ms rule: SerializeJSONProperty_SerializeJSONArray_SerializeJSONObject.induct)
  case (7 vs)
  show ?case
  proof (intro allI impI)
    fix n rest
    assume len: "length (elem_text (JArray vs)) \<le> n"
    have tx: "elem_text (JArray vs) = CHR ''['' # join (SerializeJSONArray vs) @ '']''"
      by (simp add: elem_text_def)
    from len tx obtain m where n: "n = Suc m" and m: "length (join (SerializeJSONArray vs)) < m"
      by (cases n) simp_all
    show "parse_value n (elem_text (JArray vs) @ rest) = Some (reparsed (JArray vs), rest)"
    proof (cases "vs = []")
      case True
      then show ?thesis using n tx by simp
    next
      case False
      obtain c cs where c: "join (SerializeJSONArray vs) = c # cs" "c \<noteq> CHR '']''"
        using join_SerializeJSONArray_first[OF False] by blast
      have "parse_elements m (join (SerializeJSONArray vs) @ CHR '']'' # rest) = Some (reparsed_array vs, rest)"
        using "7.IH" False m by blast
      then show ?thesis using n tx c by simp
    qed
  qed
next
  case (8 ms)
  show ?case
  proof (intro allI impI)
    fix n rest
    assume len: "length (elem_text (JObject ms)) \<le> n"
    have tx: "elem_text (JObject ms) = CHR ''{'' # join (SerializeJSONObject ms) @ ''}''"
      by (simp add: elem_text_def)
    from len tx obtain m where n: "n = Suc m" and m: "length (join (SerializeJSONObject ms)) < m"
      by (cases n) simp_all
    show "parse_value n (elem_text (JObject ms) @ rest) = Some (reparsed (JObject ms), rest)"
    proof (cases "SerializeJSONObject ms = []")
      case True
      have "reparsed_object ms = []" using True
      proof (induction ms)
        case Nil
        then show ?case by simp
      next
        case (Cons a ms)
        obtain k v where a: "a = (k, v)" by (cases a)
        show ?case using Cons a
          by (cases "SerializeJSONProperty v") (auto simp: SerializeJSONProperty_None)
      qed
      then show ?thesis using True n tx by simp
    next
      case False
      obtain cs where c: "join (SerializeJSONObject ms) = CHR 0x22 # cs"
        using join_SerializeJSONObject_first[OF False] by blast
      have "parse_members m (join (SerializeJSONObject ms) @ CHR ''}'' # rest) = Some (reparsed_object ms, rest)"
        using "8.IH" False m by blast
      then show ?thesis using n tx c by simp
    qed
  qed
next
  case 9
  show ?case by simp
next
  case (10 v vs)
  show ?case
  proof (intro allI impI)
    fix n rest
    assume len: "length (join (SerializeJSONArray (v # vs))) < n"
    then obtain m where n: "n = Suc m" by (cases n) simp_all
    show "parse_elements n (join (SerializeJSONArray (v # vs)) @ CHR '']'' # rest)
            = Some (reparsed_array (v # vs), rest)"
    proof (cases "vs = []")
      case True
      have "length (elem_text v) \<le> m" using len n True by (simp add: SerializeJSONArray_Cons)
      then have "parse_value m (elem_text v @ CHR '']'' # rest) = Some (reparsed v, CHR '']'' # rest)"
        using "10.IH"(1) by simp
      then show ?thesis using n True by (simp add: SerializeJSONArray_Cons)
    next
      case False
      have j: "join (SerializeJSONArray (v # vs)) = elem_text v @ CHR '','' # join (SerializeJSONArray vs)"
        using False by (simp add: SerializeJSONArray_Cons join_Cons)
      have "length (elem_text v) \<le> m" using len n j by simp
      then have pv: "parse_value m (elem_text v @ CHR '','' # join (SerializeJSONArray vs) @ CHR '']'' # rest)
               = Some (reparsed v, CHR '','' # join (SerializeJSONArray vs) @ CHR '']'' # rest)"
        using "10.IH"(1) by simp
      have "length (join (SerializeJSONArray vs)) < m"
        using len n j elem_text_length[of v] by simp
      then have pe: "parse_elements m (join (SerializeJSONArray vs) @ CHR '']'' # rest)
               = Some (reparsed_array vs, rest)"
        using "10.IH"(2) False by blast
      show ?thesis using n j pv pe by simp
    qed
  qed
next
  case 11
  show ?case by simp
next
  case (12 k v ms)
  show ?case
  proof (cases "SerializeJSONProperty v")
    case None
    then have "v = JUndefined \<or> v = JFunction" by (simp add: SerializeJSONProperty_None)
    then show ?thesis using "12.IH"(2)[OF None] None by auto
  next
    case (Some s)
    then have nv: "\<not> (v = JUndefined \<or> v = JFunction)" using SerializeJSONProperty_None[of v] by simp
    have s: "s = elem_text v" using Some by (simp add: elem_text_def)
    note R = "12.IH"(3)[OF Some]
    show ?thesis
    proof (intro allI impI)
      fix n rest
      assume len: "length (join (SerializeJSONObject ((k, v) # ms))) < n"
      then obtain m where n: "n = Suc m" by (cases n) simp_all
      define tail where "tail = (if SerializeJSONObject ms = [] then CHR ''}'' # rest
                                 else CHR '','' # join (SerializeJSONObject ms) @ CHR ''}'' # rest)"
      have j: "join (SerializeJSONObject ((k, v) # ms)) @ CHR ''}'' # rest
                 = CHR 0x22 # concat (map quote_char k) @ CHR 0x22 # CHR '':'' # elem_text v @ tail"
        using Some s by (simp add: join_Cons QuoteJSONString_def tail_def)
      have dt: "delim tail" by (simp add: tail_def)
      have "length (elem_text v) \<le> m"
        using len n Some s by (simp add: join_Cons QuoteJSONString_def split: if_splits)
      then have pv: "parse_value m (elem_text v @ tail) = Some (reparsed v, tail)"
        using "12.IH"(1) dt by blast
      show "parse_members n (join (SerializeJSONObject ((k, v) # ms)) @ CHR ''}'' # rest)
              = Some (reparsed_object ((k, v) # ms), rest)"
      proof (cases "SerializeJSONObject ms = []")
        case True
        have "reparsed_object ms = []" using True
        proof (induction ms)
          case Nil
          then show ?case by simp
        next
          case (Cons a ms)
          obtain k' v' where a: "a = (k', v')" by (cases a)
          show ?case using Cons a
            by (cases "SerializeJSONProperty v'") (auto simp: SerializeJSONProperty_None)
        qed
        then show ?thesis unfolding j n using pv nv True
          by (simp add: parse_chars_quoted tail_def)
      next
        case False
        have "length (join (SerializeJSONObject ms)) < m"
          using len n Some False elem_text_length[of v] s
          by (simp add: join_Cons QuoteJSONString_def)
        then have pm: "parse_members m (join (SerializeJSONObject ms) @ CHR ''}'' # rest)
                  = Some (reparsed_object ms, rest)"
          using R False by blast
        show ?thesis unfolding j n using pv pm nv False
          by (simp add: parse_chars_quoted tail_def)
      qed
    qed
  qed
qed (simp_all add: parse_value_atom atom_def)

lemma JSON_stringify_elem_text: "JSON_stringify k = elem_text (JArray k)"
  by (simp add: JSON_stringify_def elem_text_def)

lemma JSON_parse_stringify: "JSON_parse (JSON_stringify k) = Some (JArray (reparsed_array k))"
proof -
  have "parse_value (length (elem_text (JArray k))) (elem_text (JArray k) @ [])
          = Some (reparsed (JArray k), [])"
    using roundtrip_mutual(1)[rule_format, of "JArray k" "length (elem_text (JArray k))" "[]"]
    by simp
  then show ?thesis by (simp add: JSON_parse_def JSON_stringify_elem_text)
qed

lemma Query_queryKey_new:
  "Query_queryKey (Query_new options ps) = Some (JArray (reparsed_array (queryKey options)))"
  by (simp add: Query_queryKey_def Query_new_def JSON_parse_stringify)

text \<open>So \<open>fetch\<close> on a query made by the constructor never throws, and calls \<open>queryFn\<close>.\<close>

lemma Query_fetch_new:
  "Query_fetch (Query_new options ps) sig ps' =
     (let ctx = \<lparr>signal = sig, ctx_queryKey = JArray (reparsed_array (queryKey options))\<rparr>;
          (p, h) = queryFn options ctx (promises ps')
      in Inr (p, ps'\<lparr>promises := h, invoked := invoked ps' @ [ctx]\<rparr>))"
  by (simp add: Query_fetch_def Query_queryKey_new) (simp add: Query_new_def)

lemma SerializeJSONArray_append:
  "SerializeJSONArray (xs @ ys) = SerializeJSONArray xs @ SerializeJSONArray ys"
  by (induction xs) simp_all

lemma reparsed_array_append:
  "reparsed_array (xs @ ys) = reparsed_array xs @ reparsed_array ys"
  by (induction xs) simp_all

text \<open>The equations that compute the text of a concrete key.\<close>

lemmas key_text =
  JSON_stringify_def elem_text_def QuoteJSONString_def quote_char_def Number_toString_def
  digit_char_def digits.simps

section \<open>Staleness\<close>

lemma js_stale_finite: "js_greater (js_minus (Fin now) (Fin t)) (Fin s) = (s < now - t)"
  by simp

lemma key_Query_new [simp]: "key (Query_new options ps) = JSON_stringify (queryKey options)"
  by (simp add: key_def Query_new_def)

lemma p_staleTime_Query_new:
  "p_staleTime (Query_new options ps) =
     (case staleTime options of None \<Rightarrow> QueryClient_staleTime ps | Some t \<Rightarrow> t)"
  by (simp add: Query_new_def)




section \<open>Exact invalidation\<close>

text \<open>
  Claim C6. \<open>invalidateQuery(K)\<close> on a client that holds an entry for \<open>K\<close> replaces that
  entry by one with the same promise and \<open>createdAt\<close> negative infinity, and leaves the entry
  of every other key as it was; on a client without an entry for \<open>K\<close> it changes nothing.
\<close>

theorem invalidateQuery_frame:
  "(queries c (JSON_stringify k) = Some e \<longrightarrow>
      queries (invalidateQuery k c) (JSON_stringify k)
        = Some \<lparr>promise = promise e, createdAt = NegInf\<rparr>
      \<and> (\<forall>k'. k' \<noteq> JSON_stringify k \<longrightarrow> queries (invalidateQuery k c) k' = queries c k'))
   \<and> (queries c (JSON_stringify k) = None \<longrightarrow> invalidateQuery k c = c)"
  by (simp add: invalidateQuery_def invalidate_def)

theorem invalidateQuery_frame_witness:
  "queries
     (invalidateQuery [JString ''a'']
        \<lparr>queries = [JSON_stringify [JString ''a''] \<mapsto> \<lparr>promise = 0, createdAt = Fin 5\<rparr>,
                    JSON_stringify [JString ''b''] \<mapsto> \<lparr>promise = 1, createdAt = Fin 7\<rparr>]\<rparr>)
     (JSON_stringify [JString ''a''])
     = Some \<lparr>promise = 0, createdAt = NegInf\<rparr>
   \<and> queries
     (invalidateQuery [JString ''a'']
        \<lparr>queries = [JSON_stringify [JString ''a''] \<mapsto> \<lparr>promise = 0, createdAt = Fin 5\<rparr>,
                    JSON_stringify [JString ''b''] \<mapsto> \<lparr>promise = 1, createdAt = Fin 7\<rparr>]\<rparr>)
     (JSON_stringify [JString ''b''])
     = Some \<lparr>promise = 1, createdAt = Fin 7\<rparr>
   \<and> invalidateQuery [JString ''a''] \<lparr>queries = Map.empty\<rparr> = \<lparr>queries = Map.empty\<rparr>"
  using
    invalidateQuery_frame [of
      "\<lparr>queries = [JSON_stringify [JString ''a''] \<mapsto> \<lparr>promise = 0, createdAt = Fin 5\<rparr>,
                   JSON_stringify [JString ''b''] \<mapsto> \<lparr>promise = 1, createdAt = Fin 7\<rparr>]\<rparr>"
      "[JString ''a'']" "\<lparr>promise = 0, createdAt = Fin 5\<rparr>"]
    invalidateQuery_frame [of "\<lparr>queries = Map.empty\<rparr>" "[JString ''a'']"]
  by (simp add: key_text)

section \<open>Setting and getting\<close>

text \<open>
  Claim C7 as stated fails when the value is a promise: \<open>Promise.resolve\<close> returns the
  promise itself, so the entry holds a promise that may be pending, or rejected, and
  \<open>getQuery(k)\<close> returns that promise, which does not resolve to \<open>v\<close>.
\<close>

theorem setQuery_promise_value:
  "getQuery [JString ''a'']
     (fst (setQuery [JString ''a''] (APromise 0) 100 empty_client unsettled_process)) = Some 0
   \<and> promises (snd (setQuery [JString ''a''] (APromise 0) 100 empty_client unsettled_process)) ! 0
       = Pending
   \<and> getQuery [JString ''a'']
     (fst (setQuery [JString ''a''] (APromise 1) 100 empty_client unsettled_process)) = Some 1
   \<and> promises (snd (setQuery [JString ''a''] (APromise 1) 100 empty_client unsettled_process)) ! 1
       = Rejected 7"
  by (simp add: setQuery_def getQuery_def CacheEntry_new_def unsettled_process_def
      empty_client_def)

text \<open>
  Claim C7, amended. Whatever the client holds for \<open>k\<close>, \<open>setQuery(k, v)\<close> stores under
  \<open>k\<close> a new entry, created now. When \<open>v\<close> is not a promise or thenable, the entry's promise
  is a newly allocated promise that is already fulfilled with \<open>v\<close>, \<open>getQuery(k)\<close> then
  returns that promise, and no promise that existed before is changed. When \<open>v\<close> is a
  promise, the entry holds \<open>v\<close> itself, \<open>getQuery(k)\<close> returns \<open>v\<close>, and no promise is
  allocated or changed. When \<open>v\<close> is another thenable, the entry holds a newly allocated
  promise that is pending when \<open>setQuery\<close> returns.
\<close>

theorem setQuery_getQuery:
  "(case setQuery k (Plain v) now c ps of (c', ps') \<Rightarrow>
      getQuery k c' = Some (length (promises ps))
      \<and> promises ps' = promises ps @ [Fulfilled v]
      \<and> promises ps' ! length (promises ps) = Fulfilled v
      \<and> queries c' (JSON_stringify k)
          = Some \<lparr>promise = length (promises ps), createdAt = Fin now\<rparr>)
   \<and> (case setQuery k (APromise p) now c ps of (c', ps') \<Rightarrow>
      getQuery k c' = Some p
      \<and> promises ps' = promises ps
      \<and> queries c' (JSON_stringify k) = Some \<lparr>promise = p, createdAt = Fin now\<rparr>)
   \<and> (case setQuery k Thenable now c ps of (c', ps') \<Rightarrow>
      getQuery k c' = Some (length (promises ps))
      \<and> promises ps' = promises ps @ [Pending]
      \<and> queries c' (JSON_stringify k)
          = Some \<lparr>promise = length (promises ps), createdAt = Fin now\<rparr>)"
  by (simp add: setQuery_def getQuery_def CacheEntry_new_def)

section \<open>The read paths on a stored entry\<close>

lemma fetchQuery_cached:
  assumes "queries c (JSON_stringify (queryKey options)) = Some e"
    and "\<not> isStale (Query_new options ps) now (createdAt e)"
  shows "fetchQuery options now now' store c ps = Inr (promise e, c, ps)"
  using assms by (simp add: fetchQuery_def Let_def)

lemma fetchQuery_stale:
  assumes "queries c (JSON_stringify (queryKey options)) = Some e"
    and "isStale (Query_new options ps) now (createdAt e)"
    and "queryFn options \<lparr>signal = None, ctx_queryKey = JArray (reparsed_array (queryKey options))\<rparr>
           (promises ps) = (p, h)"
  shows "fetchQuery options now now' store c ps =
           Inr (p,
                c\<lparr>queries := (queries c)(JSON_stringify (queryKey options)
                                  \<mapsto> \<lparr>promise = p, createdAt = Fin now'\<rparr>)\<rparr>,
                ps\<lparr>promises := h,
                   invoked := invoked ps @
                     [\<lparr>signal = None, ctx_queryKey = JArray (reparsed_array (queryKey options))\<rparr>]\<rparr>)"
  using assms
  by (simp add: fetchQuery_def Let_def Query_fetch_new store_new_def CacheEntry_new_def)

lemma fetchQuery_absent:
  assumes "queries c (JSON_stringify (queryKey options)) = None"
    and "store (JSON_stringify (queryKey options)) = None"
    and "queryFn options \<lparr>signal = None, ctx_queryKey = JArray (reparsed_array (queryKey options))\<rparr>
           (promises ps) = (p, h)"
  shows "fetchQuery options now now' store c ps =
           Inr (p,
                c\<lparr>queries := (queries c)(JSON_stringify (queryKey options)
                                  \<mapsto> \<lparr>promise = p, createdAt = Fin now'\<rparr>)\<rparr>,
                ps\<lparr>promises := h,
                   invoked := invoked ps @
                     [\<lparr>signal = None, ctx_queryKey = JArray (reparsed_array (queryKey options))\<rparr>]\<rparr>)"
  using assms
  by (simp add: fetchQuery_def Let_def Query_fetch_new store_new_def CacheEntry_new_def
      hydratable_def)

lemma ensureQuery_cached:
  assumes "queries c (JSON_stringify (queryKey options)) = Some e"
  shows "ensureQuery options now store c ps = Inr (promise e, c, ps)"
  using assms by (simp add: ensureQuery_def Let_def)


text \<open>The example client holds, under the key \<open>['a']\<close>, the promise 0 created at time 100.\<close>

lemma seeded_entry:
  "queries seeded_client (JSON_stringify [JString ''a'']) = Some \<lparr>promise = 0, createdAt = Fin 100\<rparr>"
  by (simp add: seeded_client_def setQuery_def CacheEntry_new_def
      initial_process_def empty_client_def)

lemma seeded_process_eq:
  "seeded_process = \<lparr>QueryClient_staleTime = Fin 300000, promises = [Fulfilled 1], invoked = []\<rparr>"
  by (simp add: seeded_process_def setQuery_def initial_process_def)

text \<open>
  Claim C2. On a client that holds an entry for the key, any sequence of \<open>fetchQuery\<close> calls
  for that key, each made at a time at which its query does not find the entry stale, returns
  the entry's promise at every call and leaves the client and the process as they were: no
  \<open>queryFn\<close> is called and no promise is allocated.
\<close>

theorem fetchQuery_not_stale:
  assumes "queries c K = Some e"
    and "\<forall>(options, now, now', store) \<in> set calls.
           JSON_stringify (queryKey options) = K
           \<and> \<not> isStale (Query_new options ps) now (createdAt e)"
  shows "fetchQuery_calls calls c ps = Inr (replicate (length calls) (promise e), c, ps)"
  using assms(2)
proof (induction calls)
  case Nil
  show ?case by simp
next
  case (Cons call calls)
  obtain options now now' store where call: "call = (options, now, now', store)"
    by (cases call)
  have "fetchQuery options now now' store c ps = Inr (promise e, c, ps)"
    using Cons.prems assms(1) call by (intro fetchQuery_cached) auto
  moreover have "fetchQuery_calls calls c ps = Inr (replicate (length calls) (promise e), c, ps)"
    using Cons by simp
  ultimately show ?case using call by simp
qed

theorem fetchQuery_not_stale_witness:
  "fetchQuery_calls
     [(options_a (Some (Fin 5000)) resolving, 150, 151, Map.empty),
      (options_a None rejecting, 300100, 300100, Map.empty),
      (options_a (Some (Fin 0)) resolving, 100, 100, Map.empty)]
     seeded_client seeded_process
   = Inr ([0, 0, 0], seeded_client, seeded_process)"
proof -
  have "\<forall>(options, now, now', store) \<in> set
          [(options_a (Some (Fin 5000)) resolving, 150, 151 :: int, Map.empty :: string \<rightharpoonup> pref),
           (options_a None rejecting, 300100, 300100, Map.empty),
           (options_a (Some (Fin 0)) resolving, 100, 100, Map.empty)].
          JSON_stringify (queryKey options) = JSON_stringify [JString ''a'']
          \<and> \<not> isStale (Query_new options seeded_process) now
                (createdAt \<lparr>promise = 0, createdAt = Fin 100\<rparr>)"
    by (simp add: options_a_def isStale_def p_staleTime_Query_new seeded_process_eq)
  from fetchQuery_not_stale [OF seeded_entry this] show ?thesis
    by (simp add: numeral_3_eq_3)
qed



section \<open>Invalidation and the next fetch\<close>

lemma isStale_NegInf: "p_staleTime q = Fin s \<Longrightarrow> isStale q now NegInf"
  by (simp add: isStale_def)

lemma invalidated_entry:
  "queries (invalidateQuery [JString ''a''] seeded_client) (JSON_stringify [JString ''a''])
     = Some \<lparr>promise = 0, createdAt = NegInf\<rparr>"
  using seeded_entry by (simp add: invalidateQuery_def invalidate_def)

text \<open>
  With a finite stale time (given, or the default), on a client that holds an entry for the
  key of the options, \<open>invalidateQuery\<close> followed by \<open>fetchQuery\<close> calls \<open>queryFn\<close> once,
  with the key read back from its text, returns the promise it returned, and stores it in a
  new entry; \<open>getQuery\<close> on any key with another text returns after each of the two calls
  what it returned before.
\<close>

lemma invalidate_then_fetch_finite:
  assumes "queries c (JSON_stringify (queryKey options)) = Some e"
    and "p_staleTime (Query_new options ps) = Fin s"
  shows "\<exists>p h c'.
      queryFn options \<lparr>signal = None, ctx_queryKey = JArray (reparsed_array (queryKey options))\<rparr>
        (promises ps) = (p, h)
      \<and> fetchQuery options now now' store (invalidateQuery (queryKey options) c) ps
          = Inr (p, c',
                 ps\<lparr>promises := h,
                    invoked := invoked ps @
                      [\<lparr>signal = None, ctx_queryKey = JArray (reparsed_array (queryKey options))\<rparr>]\<rparr>)
      \<and> queries c' (JSON_stringify (queryKey options)) = Some \<lparr>promise = p, createdAt = Fin now'\<rparr>
      \<and> (\<forall>k'. JSON_stringify k' \<noteq> JSON_stringify (queryKey options) \<longrightarrow>
             getQuery k' (invalidateQuery (queryKey options) c) = getQuery k' c
             \<and> getQuery k' c' = getQuery k' c)"
proof -
  let ?K = "JSON_stringify (queryKey options)"
  let ?ctx = "\<lparr>signal = None, ctx_queryKey = JArray (reparsed_array (queryKey options))\<rparr>"
  let ?ci = "invalidateQuery (queryKey options) c"
  obtain p h where qf: "queryFn options ?ctx (promises ps) = (p, h)"
    by (cases "queryFn options ?ctx (promises ps)")
  have inv: "queries ?ci = (queries c)(?K \<mapsto> invalidate e)"
    using assms(1) by (simp add: invalidateQuery_def)
  then have ent: "queries ?ci ?K = Some (invalidate e)" by simp
  have stale: "isStale (Query_new options ps) now (createdAt (invalidate e))"
    using isStale_NegInf[OF assms(2)] by (simp add: invalidate_def)
  let ?c' = "?ci\<lparr>queries := (queries ?ci)(?K \<mapsto> \<lparr>promise = p, createdAt = Fin now'\<rparr>)\<rparr>"
  have "fetchQuery options now now' store ?ci ps
          = Inr (p, ?c', ps\<lparr>promises := h, invoked := invoked ps @ [?ctx]\<rparr>)"
    by (rule fetchQuery_stale[OF ent stale qf])
  moreover have "queries ?c' ?K = Some \<lparr>promise = p, createdAt = Fin now'\<rparr>" by simp
  moreover have "\<forall>k'. JSON_stringify k' \<noteq> ?K \<longrightarrow>
             getQuery k' ?ci = getQuery k' c \<and> getQuery k' ?c' = getQuery k' c"
    using inv by (simp add: getQuery_def)
  ultimately show ?thesis using qf by blast
qed

text \<open>
  Claim C3. The stale time \<open>Infinity\<close> is a non-negative number, and with it the invalidation
  does not force the next fetch to call \<open>queryFn\<close>: \<open>Date.now() - (-Infinity)\<close> is
  \<open>Infinity\<close>, and \<open>Infinity > Infinity\<close> is false. After \<open>setQuery(['a'], 1)\<close> and
  \<open>invalidateQuery(['a'])\<close>, \<open>fetchQuery\<close> with \<open>staleTime: Infinity\<close> returns the old
  promise, calls nothing and changes nothing.
\<close>

theorem invalidate_then_fetch_infinite:
  "fetchQuery (options_a (Some PosInf) resolving) 200 200 Map.empty
     (invalidateQuery [JString ''a''] seeded_client) seeded_process
     = Inr (0, invalidateQuery [JString ''a''] seeded_client, seeded_process)
   \<and> invoked seeded_process = []"
proof -
  have "\<not> isStale (Query_new (options_a (Some PosInf) resolving) seeded_process) 200
          (createdAt \<lparr>promise = 0, createdAt = NegInf\<rparr>)"
    by (simp add: isStale_def p_staleTime_Query_new options_a_def)
  moreover have "queries (invalidateQuery [JString ''a''] seeded_client)
       (JSON_stringify (queryKey (options_a (Some PosInf) resolving)))
     = Some \<lparr>promise = 0, createdAt = NegInf\<rparr>"
    using invalidated_entry by (simp add: options_a_def)
  ultimately have "fetchQuery (options_a (Some PosInf) resolving) 200 200 Map.empty
     (invalidateQuery [JString ''a''] seeded_client) seeded_process
     = Inr (promise \<lparr>promise = 0, createdAt = NegInf\<rparr>,
            invalidateQuery [JString ''a''] seeded_client, seeded_process)"
    by (intro fetchQuery_cached) simp_all
  then show ?thesis by (simp add: seeded_process_eq)
qed

section \<open>A rejected promise\<close>

text \<open>
  Claim C8. When \<open>fetchQuery\<close> calls \<open>queryFn\<close> (no entry and nothing to replay, or a stale
  entry) and the promise \<open>queryFn\<close> returns is rejected with \<open>err\<close>, then \<open>fetchQuery\<close>
  returns that very promise, rejected with \<open>err\<close>, and stores it: \<open>getQuery\<close> returns it,
  and so do \<open>ensureQuery\<close> at any time and \<open>fetchQuery\<close> at any time at which the entry is
  not stale, both without calling a \<open>queryFn\<close> or changing the client or the process.
\<close>

theorem rejected_entry_is_cached:
  assumes compute:
      "queryFn options \<lparr>signal = None, ctx_queryKey = JArray (reparsed_array (queryKey options))\<rparr>
         (promises ps) = (p, h)"
    and rejects: "p < length h" "h ! p = Rejected err"
    and invokes:
      "case queries c (JSON_stringify (queryKey options)) of
         None \<Rightarrow> store (JSON_stringify (queryKey options)) = None
       | Some e \<Rightarrow> isStale (Query_new options ps) now (createdAt e)"
  shows "\<exists>c' ps'.
      fetchQuery options now now' store c ps = Inr (p, c', ps')
      \<and> promises ps' = h \<and> promises ps' ! p = Rejected err
      \<and> invoked ps' = invoked ps @
            [\<lparr>signal = None, ctx_queryKey = JArray (reparsed_array (queryKey options))\<rparr>]
      \<and> queries c' (JSON_stringify (queryKey options)) = Some \<lparr>promise = p, createdAt = Fin now'\<rparr>
      \<and> getQuery (queryKey options) c' = Some p
      \<and> (\<forall>options' t t' store'.
            JSON_stringify (queryKey options') = JSON_stringify (queryKey options) \<longrightarrow>
            \<not> isStale (Query_new options' ps') t (Fin now') \<longrightarrow>
            fetchQuery options' t t' store' c' ps' = Inr (p, c', ps'))
      \<and> (\<forall>options' t store'.
            JSON_stringify (queryKey options') = JSON_stringify (queryKey options) \<longrightarrow>
            ensureQuery options' t store' c' ps' = Inr (p, c', ps'))"
proof -
  let ?K = "JSON_stringify (queryKey options)"
  let ?ctx = "\<lparr>signal = None, ctx_queryKey = JArray (reparsed_array (queryKey options))\<rparr>"
  let ?c' = "c\<lparr>queries := (queries c)(?K \<mapsto> \<lparr>promise = p, createdAt = Fin now'\<rparr>)\<rparr>"
  let ?ps' = "ps\<lparr>promises := h, invoked := invoked ps @ [?ctx]\<rparr>"
  have first: "fetchQuery options now now' store c ps = Inr (p, ?c', ?ps')"
  proof (cases "queries c ?K")
    case None
    then show ?thesis using invokes compute by (intro fetchQuery_absent) simp_all
  next
    case (Some e)
    then show ?thesis using invokes compute by (intro fetchQuery_stale) simp_all
  qed
  have ent: "queries ?c' ?K = Some \<lparr>promise = p, createdAt = Fin now'\<rparr>" by simp
  have again: "fetchQuery options' t t' store' ?c' ?ps' = Inr (p, ?c', ?ps')"
    if "JSON_stringify (queryKey options') = ?K"
      and "\<not> isStale (Query_new options' ?ps') t (Fin now')"
    for options' :: "('a, 'b) QueryOptions" and t t' store'
    using fetchQuery_cached[of ?c' options' "\<lparr>promise = p, createdAt = Fin now'\<rparr>" ?ps' t t' store']
      that by simp
  have ens: "ensureQuery options' t store' ?c' ?ps' = Inr (p, ?c', ?ps')"
    if "JSON_stringify (queryKey options') = ?K"
    for options' :: "('a, 'b) QueryOptions" and t store'
    using ensureQuery_cached[of ?c' options' "\<lparr>promise = p, createdAt = Fin now'\<rparr>" t store' ?ps']
      that by simp
  show ?thesis
    apply (rule exI[of _ ?c'])
    apply (rule exI[of _ ?ps'])
    using first ent again ens rejects by (simp add: getQuery_def)
qed

theorem rejected_entry_is_cached_witness:
  "\<exists>c' ps'.
      fetchQuery (options_a None rejecting) 100 101 Map.empty empty_client initial_process
        = Inr (0, c', ps')
      \<and> promises ps' = [Rejected 7]
      \<and> length (invoked ps') = 1
      \<and> getQuery [JString ''a''] c' = Some 0
      \<and> fetchQuery (options_a None resolving) 300101 300102 Map.empty c' ps' = Inr (0, c', ps')
      \<and> ensureQuery (options_a (Some (Fin 0)) resolving) 900000 Map.empty c' ps' = Inr (0, c', ps')"
proof -
  have compute:
    "queryFn (options_a None rejecting)
       \<lparr>signal = None, ctx_queryKey = JArray (reparsed_array (queryKey (options_a None rejecting)))\<rparr>
       (promises (initial_process :: (nat, nat) process)) = (0, [Rejected 7])"
    by (simp add: options_a_def rejecting_def initial_process_def)
  have rejects: "(0::nat) < length [Rejected (7::nat) :: (nat, nat) settlement]"
    "[Rejected (7::nat) :: (nat, nat) settlement] ! 0 = Rejected 7"
    by simp_all
  have invokes:
    "case queries empty_client (JSON_stringify (queryKey (options_a None rejecting))) of
       None \<Rightarrow> (Map.empty :: string \<rightharpoonup> pref) (JSON_stringify (queryKey (options_a None rejecting))) = None
     | Some e \<Rightarrow> isStale (Query_new (options_a None rejecting) (initial_process :: (nat, nat) process))
         100 (createdAt e)"
    by (simp add: empty_client_def)
  from rejected_entry_is_cached [OF compute rejects invokes, of 101]
  obtain c' ps' where r:
    "fetchQuery (options_a None rejecting) 100 101 Map.empty empty_client initial_process
       = Inr (0, c', ps')"
    "promises ps' = [Rejected 7]"
    "invoked ps' = invoked (initial_process :: (nat, nat) process) @
       [\<lparr>signal = None, ctx_queryKey = JArray (reparsed_array (queryKey (options_a None rejecting)))\<rparr>]"
    "getQuery (queryKey (options_a None rejecting)) c' = Some 0"
    "\<forall>options' t t' store'.
        JSON_stringify (queryKey options') = JSON_stringify (queryKey (options_a None rejecting)) \<longrightarrow>
        \<not> isStale (Query_new options' ps') t (Fin 101) \<longrightarrow>
        fetchQuery options' t t' store' c' ps' = Inr (0, c', ps')"
    "\<forall>options' t store'.
        JSON_stringify (queryKey options') = JSON_stringify (queryKey (options_a None rejecting)) \<longrightarrow>
        ensureQuery options' t store' c' ps' = Inr (0, c', ps')"
    by blast
  have st: "QueryClient_staleTime ps' = Fin 300000"
    using r(1)
    by (auto simp: fetchQuery_def Let_def empty_client_def hydratable_def Query_fetch_new
        store_new_def initial_process_def options_a_def rejecting_def split: prod.splits)
  have fresh: "\<not> isStale (Query_new (options_a None resolving) ps') 300101 (Fin 101)"
    by (simp add: isStale_def p_staleTime_Query_new options_a_def st)
  have "fetchQuery (options_a None resolving) 300101 300102 Map.empty c' ps' = Inr (0, c', ps')"
    using r(5) fresh by (simp add: options_a_def)
  moreover have "ensureQuery (options_a (Some (Fin 0)) resolving) 900000 Map.empty c' ps'
                   = Inr (0, c', ps')"
    using r(6) by (simp add: options_a_def)
  ultimately show ?thesis using r(1,2,3,4)
    by (auto simp: options_a_def initial_process_def)
qed

section \<open>The default stale time\<close>

text \<open>
  Claim C9. The default stale time is the static field of \<open>QueryClient\<close>, part of the state
  of the process and of no client. Constructing a client with default \<open>d\<close> writes \<open>d\<close> to
  it (300000 when no default is given), the last construction wins, and a query constructed
  without a stale time takes the value the field has then; a stale time given in the options
  wins. \<open>isStale\<close> reads the query's own field, so what the static field becomes later does
  not matter to the query. A client constructed earlier is subject to the new default too: its
  \<open>fetchQuery\<close> without a stale time returns an entry that is not older than \<open>s\<close> after a
  client was constructed with default \<open>s\<close>.
\<close>

theorem default_staleTime_is_static:
  "QueryClient_staleTime (snd (QueryClient_new (Some d) ps)) = d
   \<and> QueryClient_staleTime (snd (QueryClient_new None ps)) = Fin 300000
   \<and> p_staleTime (Query_new (options\<lparr>staleTime := None\<rparr>) (snd (QueryClient_new (Some d) ps))) = d
   \<and> p_staleTime (Query_new (options\<lparr>staleTime := None\<rparr>)
        (snd (QueryClient_new (Some d'') (snd (QueryClient_new (Some d') ps))))) = d''
   \<and> p_staleTime (Query_new (options\<lparr>staleTime := Some t\<rparr>) ps) = t
   \<and> isStale (Query_new (options\<lparr>staleTime := None\<rparr>) (snd (QueryClient_new (Some d) ps))) now u
        = js_greater (js_minus (Fin now) u) d
   \<and> (queries c (JSON_stringify (queryKey options)) = Some \<lparr>promise = p, createdAt = Fin created\<rparr> \<longrightarrow>
        now - created \<le> s \<longrightarrow>
        fetchQuery (options\<lparr>staleTime := None\<rparr>) now now' store c
            (snd (QueryClient_new (Some (Fin s)) ps))
          = Inr (p, c, snd (QueryClient_new (Some (Fin s)) ps)))"
proof -
  have "fetchQuery (options\<lparr>staleTime := None\<rparr>) now now' store c
            (snd (QueryClient_new (Some (Fin s)) ps))
          = Inr (p, c, snd (QueryClient_new (Some (Fin s)) ps))"
    if "queries c (JSON_stringify (queryKey options)) = Some \<lparr>promise = p, createdAt = Fin created\<rparr>"
      and "now - created \<le> s"
    using fetchQuery_cached[of c "options\<lparr>staleTime := None\<rparr>"
        "\<lparr>promise = p, createdAt = Fin created\<rparr>"
        "snd (QueryClient_new (Some (Fin s)) ps)" now now' store] that
    by (simp add: isStale_def p_staleTime_Query_new QueryClient_new_def)
  then show ?thesis
    by (simp add: p_staleTime_Query_new QueryClient_new_def isStale_def)
qed

theorem default_staleTime_is_static_witness:
  "fetchQuery (options_a None resolving) 1100 1100 Map.empty seeded_client
       (snd (QueryClient_new (Some (Fin 1000)) seeded_process))
     = Inr (0, seeded_client, snd (QueryClient_new (Some (Fin 1000)) seeded_process))
   \<and> p_staleTime (Query_new (options_a None resolving)
        (snd (QueryClient_new (Some (Fin 20000)) (snd (QueryClient_new (Some (Fin 5000)) seeded_process)))))
     = Fin 20000"
  using
    default_staleTime_is_static [where c = seeded_client and options = "options_a None resolving"
      and p = 0 and created = 100 and now = 1100 and s = 1000 and now' = 1100
      and store = Map.empty and ps = seeded_process and d = "Fin 1000" and d' = "Fin 5000"
      and d'' = "Fin 20000"]
    seeded_entry
  by (simp add: options_a_def)

section \<open>Fragments that JSON cannot represent\<close>

lemma not_in_JSON_text: "not_in_JSON v \<Longrightarrow> elem_text v = elem_text JNull \<and> reparsed v = JNull"
  by (auto simp: not_in_JSON_def elem_text_def)

text \<open>
  Claim C10. In a key, a fragment that is \<open>undefined\<close>, a function, \<open>NaN\<close> or an infinity
  is written as \<open>null\<close>: the key has the text, and so the cache slot, of the key with
  \<open>null\<close> in that place, and the \<open>queryKey\<close> getter returns \<open>null\<close> in that place.
\<close>

theorem fragment_not_in_JSON_is_null:
  assumes "not_in_JSON v"
  shows "key (Query_new (options\<lparr>queryKey := xs @ v # ys\<rparr>) ps)
           = key (Query_new (options\<lparr>queryKey := xs @ JNull # ys\<rparr>) ps)
       \<and> Query_queryKey (Query_new (options\<lparr>queryKey := xs @ v # ys\<rparr>) ps)
           = Some (JArray (reparsed_array xs @ JNull # reparsed_array ys))
       \<and> getQuery (xs @ v # ys) c = getQuery (xs @ JNull # ys) c"
proof -
  have "JSON_stringify (xs @ v # ys) = JSON_stringify (xs @ JNull # ys)"
    using not_in_JSON_text[OF assms] by (simp add: JSON_stringify_def SerializeJSONArray_append)
  then show ?thesis using not_in_JSON_text[OF assms]
    by (simp add: Query_queryKey_new reparsed_array_append getQuery_def)
qed

theorem fragment_not_in_JSON_is_null_witness:
  "not_in_JSON JUndefined \<and> not_in_JSON (JNumber NaN)
   \<and> key (Query_new ((options_a None resolving)\<lparr>queryKey := [JUndefined]\<rparr>) initial_process)
       = ''[null]''
   \<and> key (Query_new ((options_a None resolving)\<lparr>queryKey := [JNumber NaN]\<rparr>) initial_process)
       = ''[null]''
   \<and> key (Query_new ((options_a None resolving)\<lparr>queryKey := [JNull]\<rparr>) initial_process)
       = ''[null]''
   \<and> Query_queryKey (Query_new ((options_a None resolving)\<lparr>queryKey := [JUndefined]\<rparr>) initial_process)
       = Some (JArray [JNull])
   \<and> Query_queryKey (Query_new ((options_a None resolving)\<lparr>queryKey := [JNumber NaN]\<rparr>) initial_process)
       = Some (JArray [JNull])"
  using
    fragment_not_in_JSON_is_null [where v = JUndefined and xs = "[]" and ys = "[]"
      and ps = initial_process and options = "options_a None resolving"]
    fragment_not_in_JSON_is_null [where v = "JNumber NaN" and xs = "[]" and ys = "[]"
      and ps = initial_process and options = "options_a None resolving"]
  by (simp add: not_in_JSON_def key_text)

section \<open>Invalidation by prefix\<close>

lemma invalidateQueries_entry:
  "queries (invalidateQueries arg c) k =
     (if startsWith k (slice_0_m1 (JSON_stringify (case arg of None \<Rightarrow> [] | Some p \<Rightarrow> p)))
      then map_option invalidate (queries c k) else queries c k)"
  by (simp add: invalidateQueries_def Let_def)

lemma join_append:
  "join (xs @ ys) = join xs @ (if xs = [] \<or> ys = [] then [] else '','') @ join ys"
  by (induction xs rule: join.induct) (auto simp: join_Cons)

text \<open>Every key that begins with the fragments of the prefix is matched.\<close>

lemma prefix_key_matches:
  assumes "prefix p k"
  shows "startsWith (JSON_stringify k) (slice_0_m1 (JSON_stringify p))"
proof -
  obtain r where k: "k = p @ r" using assms by (auto simp: prefix_def)
  show ?thesis
    by (simp add: k JSON_stringify_def slice_0_m1_def startsWith_def SerializeJSONArray_append
        join_append butlast_append)
qed

lemma parse_value_text:
  assumes "length (elem_text v) \<le> n" "delim rest \<or> \<not> finite_number v"
  shows "parse_value n (elem_text v @ rest) = Some (reparsed v, rest)"
  using roundtrip_mutual(1)[rule_format, of v n rest] assms by blast

text \<open>Two values whose texts, each followed by something, give one string.\<close>

lemma elem_text_unique:
  assumes eq: "elem_text v @ x = elem_text w @ r"
    and v: "delim x \<or> \<not> finite_number v"
    and w: "delim r \<or> \<not> finite_number w"
  shows "elem_text v = elem_text w \<and> x = r"
proof -
  let ?n = "max (length (elem_text v)) (length (elem_text w))"
  have "parse_value ?n (elem_text v @ x) = Some (reparsed v, x)"
    using v by (intro parse_value_text) simp_all
  moreover have "parse_value ?n (elem_text w @ r) = Some (reparsed w, r)"
    using w by (intro parse_value_text) simp_all
  ultimately have "x = r" using eq by simp
  with eq show ?thesis by simp
qed


lemma elem_text_first_comma:
  "\<exists>c cs. elem_text v = c # cs \<and> c \<noteq> CHR '']'' \<and> c \<noteq> CHR '',''"
proof (cases v)
  case (JNumber n)
  show ?thesis
  proof (cases n)
    case (Fin i)
    obtain c cs where c: "Number_toString i = c # cs" "c = CHR ''-'' \<or> is_digit c"
      using Number_toString_first by blast
    then have "c \<noteq> CHR '']'' \<and> c \<noteq> CHR '',''" by (auto simp: is_digit_def)
    with c JNumber Fin show ?thesis by (simp add: elem_text_def)
  qed (simp_all add: JNumber elem_text_def)
qed (auto simp: elem_text_def QuoteJSONString_def)

lemma texts_prefix_join:
  assumes "prefix ts us"
  shows "prefix (join ts) (join us @ '']'')"
proof -
  obtain r where "us = ts @ r" using assms by (auto simp: prefix_def)
  then show ?thesis by (simp add: join_append)
qed

lemma join_prefix_texts:
  "p = [] \<or> \<not> finite_number (last p) \<Longrightarrow>
   prefix (join (SerializeJSONArray p)) (join (SerializeJSONArray k) @ '']'') \<Longrightarrow>
   prefix (SerializeJSONArray p) (SerializeJSONArray k)"
proof (induction p arbitrary: k)
  case Nil
  show ?case by simp
next
  case (Cons v p')
  obtain c cs where c: "elem_text v = c # cs" "c \<noteq> CHR '']''" "c \<noteq> CHR '',''"
    using elem_text_first_comma by blast
  show ?case
  proof (cases k)
    case Nil
    then show ?thesis using Cons.prems(2) c by (simp add: join_Cons split: if_splits)
  next
    case (Cons w k')
    define R where "R = (if k' = [] then '']'' else CHR '','' # join (SerializeJSONArray k') @ '']'')"
    have dR: "delim R" by (simp add: R_def)
    have jk: "join (SerializeJSONArray k) @ '']'' = elem_text w @ R"
      using Cons by (simp add: join_Cons R_def)
    show ?thesis
    proof (cases "p' = []")
      case True
      then have nv: "\<not> finite_number v" using Cons.prems(1) by simp
      obtain x where "elem_text v @ x = elem_text w @ R"
        using Cons.prems(2) True jk by (auto simp: prefix_def)
      then have "elem_text v = elem_text w"
        using elem_text_unique[of v x w R] nv dR by simp
      then show ?thesis using True Cons by simp
    next
      case False
      then have last: "p' = [] \<or> \<not> finite_number (last p')" using Cons.prems(1) by simp
      obtain x where "elem_text v @ CHR '','' # join (SerializeJSONArray p') @ x = elem_text w @ R"
        using Cons.prems(2) False jk by (auto simp: prefix_def join_Cons)
      then have u: "elem_text v = elem_text w" "CHR '','' # join (SerializeJSONArray p') @ x = R"
        using elem_text_unique[of v "CHR '','' # join (SerializeJSONArray p') @ x" w R] dR by simp_all
      then have "k' \<noteq> []" "join (SerializeJSONArray p') @ x = join (SerializeJSONArray k') @ '']''"
        by (auto simp: R_def split: if_splits)
      then have "prefix (join (SerializeJSONArray p')) (join (SerializeJSONArray k') @ '']'')"
        by (metis prefixI)
      then have "prefix (SerializeJSONArray p') (SerializeJSONArray k')"
        using Cons.IH[OF last] by simp
      then show ?thesis using u(1) Cons by simp
    qed
  qed
qed

text \<open>
  When the prefix is empty or its last fragment is not a finite number, the keys
  \<open>invalidateQueries\<close> matches are exactly those whose first fragments have the texts of
  the fragments of the prefix.
\<close>

lemma invalidateQueries_exact:
  assumes "p = [] \<or> \<not> finite_number (last p)"
  shows "startsWith (JSON_stringify k) (slice_0_m1 (JSON_stringify p))
           \<longleftrightarrow> prefix (SerializeJSONArray p) (SerializeJSONArray k)"
proof -
  have "startsWith (JSON_stringify k) (slice_0_m1 (JSON_stringify p))
          \<longleftrightarrow> prefix (join (SerializeJSONArray p)) (join (SerializeJSONArray k) @ '']'')"
    by (simp add: startsWith_def slice_0_m1_def JSON_stringify_def butlast_append)
  then show ?thesis using join_prefix_texts[OF assms] texts_prefix_join by blast
qed

lemma invalidateQueries_marks:
  assumes "p = [] \<or> \<not> finite_number (last p)"
  shows "queries (invalidateQueries (Some p) c) (JSON_stringify k) =
           (if prefix (SerializeJSONArray p) (SerializeJSONArray k)
            then map_option invalidate (queries c (JSON_stringify k))
            else queries c (JSON_stringify k))"
  using invalidateQueries_exact[OF assms, of k] by (simp add: invalidateQueries_entry)

text \<open>
  Claim C1. The text of the prefix \<open>[1]\<close> without its closing bracket is \<open>[1\<close>, and the
  text \<open>[10]\<close> of the key \<open>[10]\<close> starts with it: \<open>invalidateQueries([1])\<close> invalidates the
  entry of the key \<open>[10]\<close>, whose only fragment is not the fragment of the prefix.
\<close>

theorem invalidateQueries_numeric_fragment:
  "JSON_stringify [JNumber (Fin 10)] = ''[10]''
   \<and> slice_0_m1 (JSON_stringify [JNumber (Fin 1)]) = ''[1''
   \<and> queries
       (invalidateQueries (Some [JNumber (Fin 1)])
          (fst (setQuery [JNumber (Fin 10)] (Plain (1::nat)) 100 empty_client
                  (initial_process :: (nat, nat) process))))
       (JSON_stringify [JNumber (Fin 10)])
     = Some \<lparr>promise = 0, createdAt = NegInf\<rparr>"
  by (simp add: invalidateQueries_entry key_text slice_0_m1_def startsWith_def invalidate_def
      setQuery_def CacheEntry_new_def initial_process_def empty_client_def)

end
